theory Spec2Isabelle
  imports Complex_Main "HOL-Library.Word"
begin

section \<open>The crop/decimate nodelet: data\<close>

text \<open>
  The development embeds \<^verbatim>\<open>crop_decimate_nodelet.cpp\<close>: the five callbacks of
  \<^verbatim>\<open>CropDecimateNodelet\<close> become functions on a record of the member fields.
  Every callback is registered on the nodelet's single-threaded callback queue
  (\<^verbatim>\<open>getNodeHandle()\<close>) or runs under \<^verbatim>\<open>connect_mutex_\<close>, so a callback is one
  atomic step of the model.

  Numbers of type \<^verbatim>\<open>double\<close> (the frame-rate cap, the requested frequency, the timer
  period) are real numbers here: finite values, compared and divided exactly.
\<close>

text \<open>
  Modelled from the spec: the message header \<^verbatim>\<open>DownSampledImageRequest.h\<close> is not among
  the sources. The field \<^verbatim>\<open>mode\<close> is compared with the three constants the source
  names; they are the distinct values of an enumeration, and every other value of the
  field is \<open>OtherMode n\<close>. (\<^verbatim>\<open>ALL\<close> is \<open>ALL_mode\<close>: the plain name is taken
  by the notation of the logic.)
\<close>

datatype req_mode = ONCE | PUBLISH_FREQ | ALL_mode | OtherMode nat

text \<open>
  The request message; the region of interest \<^verbatim>\<open>roi\<close> is flattened into it. Its
  integer fields are unsigned; their widths are declared in the missing header, and the
  callbacks only copy them, so they are natural numbers here, as are the fields of the
  crop configuration they are copied to.
\<close>

record DownSampledImageRequest =
  binning_x :: nat
  binning_y :: nat
  roi_x_offset :: nat
  roi_y_offset :: nat
  roi_height :: nat
  roi_width :: nat
  mode :: req_mode
  publish_frequency :: real

record CropDecimateConfig =
  decimation_x :: nat
  decimation_y :: nat
  width :: nat
  height :: nat
  x_offset :: nat
  y_offset :: nat

text \<open>
  Modelled from the spec: \<^verbatim>\<open>CropDecimate::processImage\<close> lives in another package. It
  is a parameter of every callback: a function of the configuration, the image and the
  camera info that yields the output pair when it reports success and \<open>None\<close> when it
  reports failure.
\<close>

type_synonym ('i, 'c) transform = "CropDecimateConfig \<Rightarrow> 'i \<Rightarrow> 'c \<Rightarrow> ('i \<times> 'c) option"

text \<open>
  The member fields, named as in the class without the trailing underscore (which a name
  cannot end with here). A null \<^verbatim>\<open>ConstPtr\<close> is \<open>None\<close>. \<open>sub\<close> is the validity
  of the upstream subscriber handle (what \<^verbatim>\<open>!sub_\<close> tests).

  Modelled from the spec: \<^verbatim>\<open>ros::Timer\<close> and \<^verbatim>\<open>NodeHandle::createTimer\<close> are library
  code. \<open>timers\<close> lists the timers registered with the node handle (identifier and
  period in seconds), \<open>next_timer\<close> is the next fresh identifier and
  \<open>image_publish_timer\<close> is the member handle: the identifier it refers to, or
  \<open>None\<close> for a default-constructed handle. A timer stays registered as long as a handle
  refers to it; overwriting the only handle cancels the timer it referred to.
\<close>

record ('i, 'c) nodelet =
  sub :: bool
  queue_size :: int
  max_video_framerate :: real
  crop_decimate_config :: CropDecimateConfig
  crop_decimate_configured :: bool
  last_image_msg :: "'i option"
  last_info_msg :: "'c option"
  last_request :: "DownSampledImageRequest option"
  image_publish_timer :: "nat option"
  timers :: "(nat \<times> real) list"
  next_timer :: nat

text \<open>What a callback does to the outside world, in the order it does it.\<close>

datatype ('i, 'c) effect =
    SubscribeCamera int
  | Unsubscribe
  | PublishAttempt
  | ProcessImage CropDecimateConfig 'i 'c
  | Publish 'i 'c

datatype error = NullRequest

section \<open>The callbacks\<close>

text \<open>
  \<^verbatim>\<open>onInit\<close>: the two parameters are read with defaults 5 and 100.0; \<open>cfg0\<close> is
  whatever the default constructor of the configuration leaves in it.
\<close>

definition onInit :: "int option \<Rightarrow> real option \<Rightarrow> CropDecimateConfig \<Rightarrow> ('i, 'c) nodelet" where
  "onInit queue_size_param max_video_framerate_param cfg0 =
     \<lparr> sub = False,
       queue_size = (case queue_size_param of None \<Rightarrow> 5 | Some q \<Rightarrow> q),
       max_video_framerate = (case max_video_framerate_param of None \<Rightarrow> 100 | Some f \<Rightarrow> f),
       crop_decimate_config = cfg0,
       crop_decimate_configured = False,
       last_image_msg = None,
       last_info_msg = None,
       last_request = None,
       image_publish_timer = None,
       timers = [],
       next_timer = 0 \<rparr>"

text \<open>
  \<^verbatim>\<open>sub_.shutdown()\<close>: closes the subscription the handle refers to and invalidates the
  handle; on an invalid handle it does nothing.
\<close>

definition shutdown :: "('i, 'c) nodelet \<Rightarrow> ('i, 'c) nodelet \<times> ('i, 'c) effect list" where
  "shutdown s = (s\<lparr>sub := False\<rparr>, if sub s then [Unsubscribe] else [])"

text \<open>\<^verbatim>\<open>connectCb\<close>; \<open>n\<close> is what \<^verbatim>\<open>pub_.getNumSubscribers()\<close> returns.\<close>

definition connectCb :: "32 word \<Rightarrow> ('i, 'c) nodelet \<Rightarrow> ('i, 'c) nodelet \<times> ('i, 'c) effect list" where
  "connectCb n s =
     (if n = 0 then shutdown s
      else if \<not> sub s then (s\<lparr>sub := True\<rparr>, [SubscribeCamera (queue_size s)])
      else (s, []))"

text \<open>\<^verbatim>\<open>publishCroppedImage\<close>.\<close>

definition publishCroppedImage ::
  "('i, 'c) transform \<Rightarrow> ('i, 'c) nodelet \<Rightarrow> ('i, 'c) nodelet \<times> ('i, 'c) effect list" where
  "publishCroppedImage P s =
     (s, PublishAttempt #
         (case last_image_msg s of
            None \<Rightarrow> []
          | Some img \<Rightarrow>
              (case last_info_msg s of
                 None \<Rightarrow> []
               | Some info \<Rightarrow>
                   ProcessImage (crop_decimate_config s) img info #
                   (case P (crop_decimate_config s) img info of
                      None \<Rightarrow> []
                    | Some (image_out, camera_info_out) \<Rightarrow>
                        [Publish image_out camera_info_out]))))"

text \<open>\<^verbatim>\<open>imageCb\<close>.\<close>

definition imageCb ::
  "('i, 'c) transform \<Rightarrow> 'i \<Rightarrow> 'c \<Rightarrow> ('i, 'c) nodelet \<Rightarrow> ('i, 'c) nodelet \<times> ('i, 'c) effect list" where
  "imageCb P image_msg info_msg s =
     (let s1 = s\<lparr>last_image_msg := Some image_msg, last_info_msg := Some info_msg\<rparr>
      in case last_request s1 of
           None \<Rightarrow> (s1, [])
         | Some r \<Rightarrow> if mode r = ALL_mode then publishCroppedImage P s1 else (s1, []))"

text \<open>\<^verbatim>\<open>std::min(a, b)\<close>: \<open>b\<close> when \<open>b < a\<close>, else \<open>a\<close>.\<close>

definition std_min :: "real \<Rightarrow> real \<Rightarrow> real" where
  "std_min a b = (if b < a then b else a)"

text \<open>\<^verbatim>\<open>nh.createTimer(period, ...)\<close>: registers a started timer and returns its handle.\<close>

definition createTimer :: "real \<Rightarrow> ('i, 'c) nodelet \<Rightarrow> nat \<times> ('i, 'c) nodelet" where
  "createTimer period s =
     (next_timer s,
      s\<lparr>timers := timers s @ [(next_timer s, period)], next_timer := Suc (next_timer s)\<rparr>)"

text \<open>
  \<^verbatim>\<open>image_publish_timer_ = t\<close>: the timer the handle referred to loses its last
  reference and is removed from the node handle's timers.
\<close>

definition assign_timer :: "nat \<Rightarrow> ('i, 'c) nodelet \<Rightarrow> ('i, 'c) nodelet" where
  "assign_timer t s =
     s\<lparr>timers := filter (\<lambda>(i, p). Some i \<noteq> image_publish_timer s) (timers s),
       image_publish_timer := Some t\<rparr>"

definition config_of :: "DownSampledImageRequest \<Rightarrow> CropDecimateConfig \<Rightarrow> CropDecimateConfig" where
  "config_of rq cfg =
     cfg\<lparr>decimation_x := binning_x rq,
         decimation_y := binning_y rq,
         width := roi_width rq,
         height := roi_height rq,
         x_offset := roi_x_offset rq,
         y_offset := roi_y_offset rq\<rparr>"

text \<open>\<^verbatim>\<open>imageRequestCb\<close>.\<close>

definition imageRequestCb ::
  "('i, 'c) transform \<Rightarrow> DownSampledImageRequest \<Rightarrow> ('i, 'c) nodelet
     \<Rightarrow> ('i, 'c) nodelet \<times> ('i, 'c) effect list" where
  "imageRequestCb P image_request_msg s =
     (let s1 = s\<lparr>last_request := Some image_request_msg,
                 crop_decimate_config := config_of image_request_msg (crop_decimate_config s),
                 crop_decimate_configured := True\<rparr>
      in if mode image_request_msg = ONCE then publishCroppedImage P s1
         else if mode image_request_msg = PUBLISH_FREQ then
           (let (s2, out) = publishCroppedImage P s1;
                capped_publish_frequency =
                  std_min (max_video_framerate s2) (publish_frequency image_request_msg)
            in if capped_publish_frequency > 0 then
                 (let (t, s3) = createTimer (1 / capped_publish_frequency) s2
                  in (assign_timer t s3, out))
               else (s2, out))
         else publishCroppedImage P s1)"

text \<open>
  \<^verbatim>\<open>publishTimerCb\<close>: it reads \<^verbatim>\<open>last_request_->mode\<close> with no null check, so a null
  request is an error of the model.
\<close>

definition publishTimerCb ::
  "('i, 'c) transform \<Rightarrow> ('i, 'c) nodelet \<Rightarrow> error + ('i, 'c) nodelet \<times> ('i, 'c) effect list" where
  "publishTimerCb P s =
     (case last_request s of
        None \<Rightarrow> Inl NullRequest
      | Some r \<Rightarrow> if mode r \<noteq> PUBLISH_FREQ then Inr (s, []) else Inr (publishCroppedImage P s))"

section \<open>Runs\<close>

text \<open>
  The events the middleware delivers: a change of the number of downstream subscribers, a
  frame, a request, and timer \<open>t\<close> coming due. A timer that is not registered with the
  node handle has no callback to call.
\<close>

datatype ('i, 'c) event =
    Connect "32 word"
  | Image 'i 'c
  | ImageRequest DownSampledImageRequest
  | Timer nat

fun is_request :: "('i, 'c) event \<Rightarrow> bool" where
  "is_request (ImageRequest rq) = True"
| "is_request _ = False"

fun is_image :: "('i, 'c) event \<Rightarrow> bool" where
  "is_image (Image i c) = True"
| "is_image _ = False"

fun dispatch ::
  "('i, 'c) transform \<Rightarrow> ('i, 'c) event \<Rightarrow> ('i, 'c) nodelet
     \<Rightarrow> error + ('i, 'c) nodelet \<times> ('i, 'c) effect list" where
  "dispatch P (Connect n) s = Inr (connectCb n s)"
| "dispatch P (Image i c) s = Inr (imageCb P i c s)"
| "dispatch P (ImageRequest rq) s = Inr (imageRequestCb P rq s)"
| "dispatch P (Timer t) s =
     (if t \<in> fst ` set (timers s) then publishTimerCb P s else Inr (s, []))"

fun run ::
  "('i, 'c) transform \<Rightarrow> ('i, 'c) nodelet \<Rightarrow> ('i, 'c) event list
     \<Rightarrow> error + ('i, 'c) nodelet \<times> ('i, 'c) effect list" where
  "run P s [] = Inr (s, [])"
| "run P s (e # es) =
     (case dispatch P e s of
        Inl err \<Rightarrow> Inl err
      | Inr (s1, out1) \<Rightarrow>
          (case run P s1 es of
             Inl err \<Rightarrow> Inl err
           | Inr (s2, out2) \<Rightarrow> Inr (s2, out1 @ out2)))"

text \<open>Counting in a trace of effects.\<close>

definition attempts :: "('i, 'c) effect list \<Rightarrow> nat" where
  "attempts out = count_list out PublishAttempt"

fun is_publish :: "('i, 'c) effect \<Rightarrow> bool" where
  "is_publish (Publish i c) = True"
| "is_publish _ = False"

fun is_process :: "('i, 'c) effect \<Rightarrow> bool" where
  "is_process (ProcessImage cfg i c) = True"
| "is_process _ = False"

definition publishes :: "('i, 'c) effect list \<Rightarrow> nat" where
  "publishes out = length (filter is_publish out)"

definition transform_calls :: "('i, 'c) effect list \<Rightarrow> nat" where
  "transform_calls out = length (filter is_process out)"

text \<open>
  The number of upstream subscriptions a trace leaves open: one more for each
  \<^verbatim>\<open>subscribeCamera\<close>, one fewer for each subscription closed.
\<close>

fun opened :: "('i, 'c) effect list \<Rightarrow> int" where
  "opened [] = 0"
| "opened (SubscribeCamera q # out) = 1 + opened out"
| "opened (Unsubscribe # out) = opened out - 1"
| "opened (e # out) = opened out"

fun request_free :: "('i, 'c) event list \<Rightarrow> bool" where
  "request_free [] = True"
| "request_free (e # es) = (\<not> is_request e \<and> request_free es)"

fun image_free :: "('i, 'c) event list \<Rightarrow> bool" where
  "image_free [] = True"
| "image_free (e # es) = (\<not> is_image e \<and> image_free es)"

section \<open>Invariants of the timer handle\<close>

text \<open>
  The node handle's timers are exactly what the member handle refers to, and identifiers
  handed out so far are below \<open>next_timer\<close>.
\<close>

definition timer_inv :: "('i, 'c) nodelet \<Rightarrow> bool" where
  "timer_inv s =
     (case image_publish_timer s of
        None \<Rightarrow> timers s = []
      | Some t \<Rightarrow> map fst (timers s) = [t] \<and> t < next_timer s)"

text \<open>A request that makes \<^verbatim>\<open>imageRequestCb\<close> create a timer, under the cap \<open>cap\<close>.\<close>

definition arming :: "real \<Rightarrow> DownSampledImageRequest \<Rightarrow> bool" where
  "arming cap rq = (mode rq = PUBLISH_FREQ \<and> 0 < std_min cap (publish_frequency rq))"

definition node_inv :: "('i, 'c) nodelet \<Rightarrow> bool" where
  "node_inv s =
     (timer_inv s \<and>
      (case last_request s of
         None \<Rightarrow> image_publish_timer s = None
       | Some r \<Rightarrow>
           arming (max_video_framerate s) r \<longrightarrow>
           map snd (timers s) = [1 / std_min (max_video_framerate s) (publish_frequency r)]))"

section \<open>Concrete inputs\<close>

definition passthrough :: "(nat, nat) transform" where
  "passthrough cfg img info = Some (img, info)"

definition failing :: "(nat, nat) transform" where
  "failing cfg img info = None"

definition blank :: CropDecimateConfig where
  "blank = \<lparr>decimation_x = 0, decimation_y = 0, width = 0, height = 0, x_offset = 0, y_offset = 0\<rparr>"

definition request :: "req_mode \<Rightarrow> real \<Rightarrow> DownSampledImageRequest" where
  "request m hz =
     \<lparr>binning_x = 2, binning_y = 2, roi_x_offset = 0, roi_y_offset = 0,
      roi_height = 480, roi_width = 640, mode = m, publish_frequency = hz\<rparr>"

text \<open>The nodelet after \<^verbatim>\<open>onInit\<close> with no parameter set.\<close>

definition fresh :: "(nat, nat) nodelet" where
  "fresh = onInit None None blank"

text \<open>The same nodelet with frame \<open>(1, 2)\<close> cached and a 5 Hz periodic request in force.\<close>

definition periodic5 :: "(nat, nat) nodelet" where
  "periodic5 =
     fst (imageRequestCb passthrough (request PUBLISH_FREQ 5) (fst (imageCb passthrough 1 2 fresh)))"

section \<open>Facts about the callbacks\<close>

lemma opened_append: "opened (xs @ ys) = opened xs + opened ys"
  by (induction xs rule: opened.induct) simp_all

lemma attempts_append: "attempts (xs @ ys) = attempts xs + attempts ys"
  by (induction xs) (simp_all add: attempts_def)

lemma publishes_append: "publishes (xs @ ys) = publishes xs + publishes ys"
  by (simp add: publishes_def)

lemma transform_calls_append: "transform_calls (xs @ ys) = transform_calls xs + transform_calls ys"
  by (simp add: transform_calls_def)

lemma publishCroppedImage_state [simp]: "fst (publishCroppedImage P s) = s"
  by (simp add: publishCroppedImage_def)

lemma attempts_publishCroppedImage [simp]: "attempts (snd (publishCroppedImage P s)) = 1"
  by (simp add: publishCroppedImage_def attempts_def split: option.splits)

lemma timer_state: "dispatch P (Timer t) s = Inr (s1, out) \<Longrightarrow> s1 = s"
  by (auto simp: publishTimerCb_def publishCroppedImage_def split: if_splits option.splits)

lemma connect_state: "fst (connectCb n s) = s\<lparr>sub := (n \<noteq> 0)\<rparr>"
  by (simp add: connectCb_def shutdown_def)

lemma connect_quiet:
  "attempts (snd (connectCb n s)) = 0 \<and> publishes (snd (connectCb n s)) = 0 \<and>
   transform_calls (snd (connectCb n s)) = 0"
  by (simp add: connectCb_def shutdown_def attempts_def publishes_def transform_calls_def)

lemma image_state:
  "fst (imageCb P i c s) = s\<lparr>last_image_msg := Some i, last_info_msg := Some c\<rparr>"
  by (simp add: imageCb_def Let_def split: option.splits)

subsection \<open>Replacing the timer\<close>

lemma replace_timer:
  assumes "timer_inv s"
  shows "timers (assign_timer (fst (createTimer p s)) (snd (createTimer p s))) = [(next_timer s, p)]"
proof (cases "image_publish_timer s")
  case None
  with assms show ?thesis
    by (simp add: timer_inv_def createTimer_def assign_timer_def)
next
  case (Some t)
  with assms obtain p0 where "timers s = [(t, p0)]" and "t < next_timer s"
    by (auto simp: timer_inv_def)
  with Some show ?thesis
    by (simp add: createTimer_def assign_timer_def)
qed

lemma imageRequestCb_arming:
  assumes "timer_inv s" and "arming (max_video_framerate s) rq"
  shows "fst (imageRequestCb P rq s) =
           s\<lparr>last_request := Some rq,
             crop_decimate_config := config_of rq (crop_decimate_config s),
             crop_decimate_configured := True,
             timers := [(next_timer s, 1 / std_min (max_video_framerate s) (publish_frequency rq))],
             next_timer := Suc (next_timer s),
             image_publish_timer := Some (next_timer s)\<rparr>"
proof -
  let ?s1 = "s\<lparr>last_request := Some rq,
             crop_decimate_config := config_of rq (crop_decimate_config s),
             crop_decimate_configured := True\<rparr>"
  let ?p = "1 / std_min (max_video_framerate s) (publish_frequency rq)"
  have inv1: "timer_inv ?s1"
    using assms(1) by (simp add: timer_inv_def split: option.splits)
  have "fst (imageRequestCb P rq s) = assign_timer (fst (createTimer ?p ?s1)) (snd (createTimer ?p ?s1))"
    using assms(2) by (simp add: imageRequestCb_def arming_def Let_def split_beta)
  moreover have "timers (assign_timer (fst (createTimer ?p ?s1)) (snd (createTimer ?p ?s1)))
      = [(next_timer ?s1, ?p)]"
    by (rule replace_timer [OF inv1])
  ultimately show ?thesis
    by (simp add: createTimer_def assign_timer_def)
qed

lemma imageRequestCb_not_arming:
  assumes "\<not> arming (max_video_framerate s) rq"
  shows "fst (imageRequestCb P rq s) =
           s\<lparr>last_request := Some rq,
             crop_decimate_config := config_of rq (crop_decimate_config s),
             crop_decimate_configured := True\<rparr>"
  using assms by (simp add: imageRequestCb_def arming_def Let_def split_beta)

lemma imageRequestCb_attempts: "attempts (snd (imageRequestCb P rq s)) = 1"
  by (simp add: imageRequestCb_def Let_def split_beta)

subsection \<open>Every run from the initial state keeps the invariant and never fails\<close>

lemma dispatch_node_inv:
  assumes "node_inv s" and "dispatch P e s = Inr (s1, out)"
  shows "node_inv s1"
proof (cases e)
  case (Connect n)
  with assms(2) have "s1 = s\<lparr>sub := (n \<noteq> 0)\<rparr>"
    using connect_state [of n s] by simp
  with assms(1) show ?thesis
    by (simp add: node_inv_def timer_inv_def split: option.splits)
next
  case (Image i c)
  with assms(2) have "s1 = s\<lparr>last_image_msg := Some i, last_info_msg := Some c\<rparr>"
    using image_state [of P i c s] by simp
  with assms(1) show ?thesis
    by (simp add: node_inv_def timer_inv_def split: option.splits)
next
  case (ImageRequest rq)
  with assms(2) have s1: "s1 = fst (imageRequestCb P rq s)" by simp
  from assms(1) have ti: "timer_inv s" by (simp add: node_inv_def)
  show ?thesis
  proof (cases "arming (max_video_framerate s) rq")
    case True
    from imageRequestCb_arming [OF ti True, of P] s1 True show ?thesis
      by (simp add: node_inv_def timer_inv_def)
  next
    case False
    from imageRequestCb_not_arming [OF False, of P] s1 False ti show ?thesis
      by (simp add: node_inv_def timer_inv_def split: option.splits)
  qed
next
  case (Timer t)
  with assms show ?thesis using timer_state [of P t s s1 out] by simp
qed

lemma dispatch_total:
  assumes "node_inv s"
  shows "\<exists>s1 out. dispatch P e s = Inr (s1, out)"
proof (cases e)
  case (Timer t)
  show ?thesis
  proof (cases "t \<in> fst ` set (timers s)")
    case True
    then have "timers s \<noteq> []" by auto
    with assms obtain r where "last_request s = Some r"
      by (auto simp: node_inv_def timer_inv_def split: option.splits)
    with Timer show ?thesis
      by (simp add: publishTimerCb_def prod_eq_iff)
  next
    case False
    with Timer show ?thesis by simp
  qed
qed (simp_all add: prod_eq_iff)

lemma run_total:
  "node_inv s \<Longrightarrow> \<exists>s2 out. run P s es = Inr (s2, out) \<and> node_inv s2"
proof (induction es arbitrary: s)
  case Nil
  then show ?case by simp
next
  case (Cons e es)
  from dispatch_total [OF Cons.prems] obtain s1 out1 where d: "dispatch P e s = Inr (s1, out1)"
    by blast
  from dispatch_node_inv [OF Cons.prems d] have "node_inv s1" .
  from Cons.IH [OF this] obtain s2 out2 where "run P s1 es = Inr (s2, out2)" and "node_inv s2"
    by blast
  with d show ?case by simp
qed

lemma node_inv_onInit: "node_inv (onInit q f cfg0)"
  by (simp add: node_inv_def timer_inv_def onInit_def)

lemma run_node_inv:
  assumes "run P (onInit q f cfg0) es = Inr (s, out)"
  shows "node_inv s"
  using run_total [OF node_inv_onInit, of P q f cfg0 es] assms by auto

subsection \<open>Between requests\<close>

lemma quiet_dispatch:
  assumes "last_request s = Some r" and "mode r \<noteq> ALL_mode"
    and "mode r \<noteq> PUBLISH_FREQ \<or> timers s = []" and "\<not> is_request e"
  shows "\<exists>s1 out. dispatch P e s = Inr (s1, out) \<and> last_request s1 = Some r \<and>
           timers s1 = timers s \<and>
           attempts out = 0 \<and> publishes out = 0 \<and> transform_calls out = 0"
proof (cases e)
  case (Connect n)
  then show ?thesis
    using assms(1) connect_quiet [of n s] connect_state [of n s]
    by (simp add: prod_eq_iff)
next
  case (Image i c)
  with assms(1,2) show ?thesis
    by (simp add: imageCb_def attempts_def publishes_def transform_calls_def)
next
  case (ImageRequest rq)
  with assms(4) show ?thesis by simp
next
  case (Timer t)
  with assms(1,3) show ?thesis
    by (auto simp: publishTimerCb_def attempts_def publishes_def transform_calls_def)
qed

lemma quiet_run:
  assumes "last_request s = Some r" and "mode r \<noteq> ALL_mode"
    and "mode r \<noteq> PUBLISH_FREQ \<or> timers s = []" and "request_free es"
  shows "\<exists>s2 out. run P s es = Inr (s2, out) \<and> last_request s2 = Some r \<and>
           timers s2 = timers s \<and>
           attempts out = 0 \<and> publishes out = 0 \<and> transform_calls out = 0"
  using assms(1,3,4)
proof (induction es arbitrary: s)
  case Nil
  then show ?case by (simp add: attempts_def publishes_def transform_calls_def)
next
  case (Cons e es)
  from Cons.prems(3) have e: "\<not> is_request e" and es: "request_free es"
    by simp_all
  from quiet_dispatch [OF Cons.prems(1) assms(2) Cons.prems(2) e, of P]
  obtain s1 out1 where d: "dispatch P e s = Inr (s1, out1)" and r1: "last_request s1 = Some r"
    and t1: "timers s1 = timers s"
    and q1: "attempts out1 = 0" "publishes out1 = 0" "transform_calls out1 = 0"
    by blast
  from Cons.prems(2) t1 have g1: "mode r \<noteq> PUBLISH_FREQ \<or> timers s1 = []" by simp
  from Cons.IH [OF r1 g1 es]
  obtain s2 out2 where "run P s1 es = Inr (s2, out2)" and "last_request s2 = Some r"
    and "timers s2 = timers s1"
    and "attempts out2 = 0" "publishes out2 = 0" "transform_calls out2 = 0"
    by blast
  with d t1 q1 show ?case
    by (simp add: attempts_append publishes_append transform_calls_append)
qed

text \<open>
  A periodic request whose capped frequency is not positive, arriving when no timer is
  registered: one publish attempt at once, no timer, and no further attempt until the
  next request.
\<close>

lemma periodic_zero_without_timer:
  assumes "mode rq = PUBLISH_FREQ"
    and "\<not> 0 < std_min (max_video_framerate s) (publish_frequency rq)"
    and "timers s = []" and "request_free es"
  shows "attempts (snd (imageRequestCb P rq s)) = 1 \<and>
         timers (fst (imageRequestCb P rq s)) = [] \<and>
         (\<exists>s2 out2. run P (fst (imageRequestCb P rq s)) es = Inr (s2, out2) \<and>
            attempts out2 = 0 \<and> publishes out2 = 0)"
proof -
  let ?s1 = "fst (imageRequestCb P rq s)"
  have na: "\<not> arming (max_video_framerate s) rq"
    using assms(2) by (simp add: arming_def)
  from imageRequestCb_not_arming [OF na, of P] assms(3)
  have r: "last_request ?s1 = Some rq" and t: "timers ?s1 = []"
    by simp_all
  have m: "mode rq \<noteq> ALL_mode" "mode rq \<noteq> PUBLISH_FREQ \<or> timers ?s1 = []"
    using assms(1) t by simp_all
  from quiet_run [OF r m assms(4), of P] imageRequestCb_attempts [of P rq s] t
  show ?thesis by auto
qed

subsection \<open>Upstream subscriptions along a run\<close>

lemma dispatch_opened:
  assumes "dispatch P e s = Inr (s1, out)"
  shows "opened out = of_bool (sub s1) - of_bool (sub s)"
proof (cases e)
  case (Connect n)
  with assms show ?thesis
    by (auto simp: connectCb_def shutdown_def split: if_splits)
next
  case (Image i c)
  with assms show ?thesis
    by (auto simp: imageCb_def publishCroppedImage_def Let_def split: option.splits if_splits)
next
  case (ImageRequest rq)
  with assms show ?thesis
    by (auto simp: imageRequestCb_def publishCroppedImage_def createTimer_def assign_timer_def Let_def
        split: option.splits if_splits)
next
  case (Timer t)
  with assms show ?thesis
    by (auto simp: publishTimerCb_def publishCroppedImage_def split: option.splits if_splits)
qed

lemma run_opened:
  "run P s es = Inr (s2, out) \<Longrightarrow> opened out = of_bool (sub s2) - of_bool (sub s)"
proof (induction es arbitrary: s out)
  case Nil
  then show ?case by simp
next
  case (Cons e es)
  from Cons.prems obtain s1 out1 out2 where
    d: "dispatch P e s = Inr (s1, out1)" and r: "run P s1 es = Inr (s2, out2)"
    and o: "out = out1 @ out2"
    by (auto split: sum.splits)
  from Cons.IH [OF r] dispatch_opened [OF d] o show ?case
    by (simp add: opened_append)
qed

subsection \<open>Before the first frame\<close>

lemma frameless_dispatch:
  assumes "dispatch P e s = Inr (s1, out)" and "last_image_msg s = None" and "\<not> is_image e"
  shows "last_image_msg s1 = None \<and> publishes out = 0 \<and> transform_calls out = 0"
proof (cases e)
  case (Connect n)
  with assms(1,2) show ?thesis
    using connect_quiet [of n s] connect_state [of n s] by auto
next
  case (Image i c)
  with assms(3) show ?thesis by simp
next
  case (ImageRequest rq)
  with assms(1,2) show ?thesis
    by (auto simp: imageRequestCb_def publishCroppedImage_def createTimer_def assign_timer_def
        publishes_def transform_calls_def Let_def split: if_splits)
next
  case (Timer t)
  with assms(1,2) show ?thesis
    by (auto simp: publishTimerCb_def publishCroppedImage_def publishes_def transform_calls_def
        split: if_splits option.splits)
qed

lemma frameless_run:
  assumes "run P s es = Inr (s2, out)" and "last_image_msg s = None" and "image_free es"
  shows "last_image_msg s2 = None \<and> publishes out = 0 \<and> transform_calls out = 0"
  using assms
proof (induction es arbitrary: s out)
  case Nil
  then show ?case by (simp add: publishes_def transform_calls_def)
next
  case (Cons e es)
  from Cons.prems(1) obtain s1 out1 out2 where
    d: "dispatch P e s = Inr (s1, out1)" and r: "run P s1 es = Inr (s2, out2)"
    and o: "out = out1 @ out2"
    by (auto split: sum.splits)
  from Cons.prems(3) have e: "\<not> is_image e" and es: "image_free es" by simp_all
  from frameless_dispatch [OF d Cons.prems(2) e]
  have s1: "last_image_msg s1 = None" and q1: "publishes out1 = 0" "transform_calls out1 = 0"
    by simp_all
  from Cons.IH [OF r s1 es] q1 o show ?case
    by (simp add: publishes_append transform_calls_append)
qed

subsection \<open>What no callback changes\<close>

lemma dispatch_keeps:
  assumes "dispatch P e s = Inr (s1, out)"
  shows "max_video_framerate s1 = max_video_framerate s \<and>
         (last_request s \<noteq> None \<longrightarrow> last_request s1 \<noteq> None)"
proof (cases e)
  case (Connect n)
  with assms show ?thesis using connect_state [of n s] by auto
next
  case (Image i c)
  with assms show ?thesis using image_state [of P i c s] by auto
next
  case (ImageRequest rq)
  with assms show ?thesis
    by (auto simp: imageRequestCb_def publishCroppedImage_def createTimer_def assign_timer_def
        Let_def split: if_splits)
next
  case (Timer t)
  with assms show ?thesis using timer_state [of P t s s1 out] by simp
qed

lemma run_max_video_framerate:
  "run P s es = Inr (s2, out) \<Longrightarrow> max_video_framerate s2 = max_video_framerate s"
proof (induction es arbitrary: s out)
  case Nil
  then show ?case by simp
next
  case (Cons e es)
  from Cons.prems obtain s1 out1 out2 where
    d: "dispatch P e s = Inr (s1, out1)" and r: "run P s1 es = Inr (s2, out2)"
    by (auto split: sum.splits)
  from Cons.IH [OF r] dispatch_keeps [OF d] show ?case by simp
qed

subsection \<open>Where a timer comes from\<close>

lemma std_min_min: "std_min a b = min a b"
  by (simp add: std_min_def min_def)

lemma dispatch_timers_origin:
  assumes "dispatch P e s = Inr (s1, out)" and "timers s1 \<noteq> []"
  shows "timers s \<noteq> [] \<or> (\<exists>rq. e = ImageRequest rq \<and> arming (max_video_framerate s) rq)"
proof (cases e)
  case (Connect n)
  with assms show ?thesis using connect_state [of n s] by auto
next
  case (Image i c)
  with assms show ?thesis using image_state [of P i c s] by auto
next
  case (ImageRequest rq)
  show ?thesis
  proof (cases "arming (max_video_framerate s) rq")
    case True
    with ImageRequest show ?thesis by simp
  next
    case False
    from imageRequestCb_not_arming [OF False, of P] ImageRequest assms show ?thesis by auto
  qed
next
  case (Timer t)
  with assms show ?thesis using timer_state [of P t s s1 out] by simp
qed

lemma run_timers_origin:
  assumes "run P s es = Inr (s2, out)" and "timers s2 \<noteq> []"
  shows "timers s \<noteq> [] \<or>
         (\<exists>rq. ImageRequest rq \<in> set es \<and> arming (max_video_framerate s) rq)"
  using assms
proof (induction es arbitrary: s out)
  case Nil
  then show ?case by simp
next
  case (Cons e es)
  from Cons.prems(1) obtain s1 out1 out2 where
    d: "dispatch P e s = Inr (s1, out1)" and r: "run P s1 es = Inr (s2, out2)"
    by (auto split: sum.splits)
  from dispatch_keeps [OF d] have m: "max_video_framerate s1 = max_video_framerate s" by simp
  from Cons.IH [OF r Cons.prems(2)] m
  consider "timers s1 \<noteq> []"
    | rq where "ImageRequest rq \<in> set es" "arming (max_video_framerate s) rq"
    by auto
  then show ?case
  proof cases
    case 1
    from dispatch_timers_origin [OF d 1] show ?thesis by auto
  next
    case 2
    then show ?thesis by auto
  qed
qed

subsection \<open>Evaluating the concrete inputs\<close>

lemmas eval_defs = periodic5_def fresh_def onInit_def blank_def request_def passthrough_def
  failing_def imageRequestCb_def imageCb_def publishCroppedImage_def publishTimerCb_def
  connectCb_def shutdown_def createTimer_def assign_timer_def std_min_def config_of_def
  attempts_def publishes_def transform_calls_def Let_def

lemma periodic5_eval:
  "periodic5 =
     \<lparr>sub = False, queue_size = 5, max_video_framerate = 100,
      crop_decimate_config =
        \<lparr>decimation_x = 2, decimation_y = 2, width = 640, height = 480,
         x_offset = 0, y_offset = 0\<rparr>,
      crop_decimate_configured = True, last_image_msg = Some 1, last_info_msg = Some 2,
      last_request = Some (request PUBLISH_FREQ 5), image_publish_timer = Some 0,
      timers = [(0, 1 / 5)], next_timer = 1\<rparr>"
  by (simp add: eval_defs)

section \<open>The claims\<close>

text \<open>
  C4. A request with mode \<open>ONCE\<close> makes exactly one publish attempt when it arrives. Until
  the next request, whatever frames, subscriber changes and timer ticks follow, no further
  publish attempt (and no publish) happens: in particular a tick of a timer that an earlier
  periodic request armed finds a mode other than \<open>PUBLISH_FREQ\<close> and does nothing.
\<close>

theorem once_request:
  assumes "mode rq = ONCE" and "request_free es"
  shows "attempts (snd (imageRequestCb P rq s)) = 1 \<and>
         publishTimerCb P (fst (imageRequestCb P rq s)) = Inr (fst (imageRequestCb P rq s), []) \<and>
         (\<exists>s2 out2. run P (fst (imageRequestCb P rq s)) es = Inr (s2, out2) \<and>
            attempts out2 = 0 \<and> publishes out2 = 0)"
proof -
  let ?s1 = "fst (imageRequestCb P rq s)"
  have na: "\<not> arming (max_video_framerate s) rq"
    using assms(1) by (simp add: arming_def)
  have r: "last_request ?s1 = Some rq"
    using imageRequestCb_not_arming [OF na, of P] by simp
  have m: "mode rq \<noteq> ALL_mode" "mode rq \<noteq> PUBLISH_FREQ \<or> timers ?s1 = []"
    using assms(1) by simp_all
  have tick: "publishTimerCb P ?s1 = Inr (?s1, [])"
    using r assms(1) by (simp add: publishTimerCb_def)
  from quiet_run [OF r m assms(2), of P] imageRequestCb_attempts [of P rq s] tick
  show ?thesis by blast
qed

theorem once_request_witness:
  "mode (request ONCE 0) = ONCE \<and>
   request_free [Timer 0, Image 3 4, Timer 0, Connect 1 :: (nat, nat) event] \<and>
   timers (fst (imageRequestCb passthrough (request ONCE 0) periodic5)) = [(0, 1 / 5)] \<and>
   attempts (snd (imageRequestCb passthrough (request ONCE 0) periodic5)) = 1 \<and>
   publishTimerCb passthrough (fst (imageRequestCb passthrough (request ONCE 0) periodic5))
     = Inr (fst (imageRequestCb passthrough (request ONCE 0) periodic5), []) \<and>
   (\<exists>s2 out2.
      run passthrough (fst (imageRequestCb passthrough (request ONCE 0) periodic5))
        [Timer 0, Image 3 4, Timer 0, Connect 1] = Inr (s2, out2) \<and>
      attempts out2 = 0 \<and> publishes out2 = 0)"
proof -
  have h1: "mode (request ONCE 0) = ONCE" by (simp add: request_def)
  have h2: "request_free [Timer 0, Image 3 4, Timer 0, Connect 1 :: (nat, nat) event]" by simp
  have t: "timers (fst (imageRequestCb passthrough (request ONCE 0) periodic5)) = [(0, 1 / 5)]"
    by (simp add: eval_defs)
  from once_request [OF h1 h2, of passthrough periodic5] h1 h2 t show ?thesis by blast
qed

text \<open>
  C8. After \<^verbatim>\<open>connectCb\<close> the upstream subscription is open if and only if the number
  of downstream subscribers is not zero, and nothing else of the nodelet changes. It
  subscribes only when the handle was invalid and closes only a subscription that was
  open, so calling it again with the same count changes nothing and does nothing. Along
  every run from \<^verbatim>\<open>onInit\<close> the subscriptions opened minus those closed is 1 when the
  handle is valid and 0 when it is not: never two.
\<close>

theorem connectCb_gate:
  assumes "run P (onInit q f cfg0) es = Inr (s, out)"
  shows "sub (fst (connectCb n s0)) = (n \<noteq> 0) \<and>
         fst (connectCb n s0) = s0\<lparr>sub := (n \<noteq> 0)\<rparr> \<and>
         snd (connectCb n s0) =
           (if n = 0 then (if sub s0 then [Unsubscribe] else [])
            else if sub s0 then [] else [SubscribeCamera (queue_size s0)]) \<and>
         connectCb n (fst (connectCb n s0)) = (fst (connectCb n s0), []) \<and>
         opened out = (if sub s then 1 else 0)"
proof -
  have "opened out = (if sub s then 1 else 0)"
    using run_opened [OF assms] by (simp add: onInit_def)
  then show ?thesis
    by (simp add: connectCb_def shutdown_def)
qed

theorem connectCb_gate_witness:
  "run passthrough fresh [Connect 1, Connect 2, Connect 0, Connect 0, Connect 3]
     = Inr (fresh\<lparr>sub := True\<rparr>, [SubscribeCamera 5, Unsubscribe, SubscribeCamera 5]) \<and>
   sub (fst (connectCb 2 (fresh\<lparr>sub := True\<rparr>))) = ((2 :: 32 word) \<noteq> 0) \<and>
   snd (connectCb 2 (fresh\<lparr>sub := True\<rparr>)) = [] \<and>
   connectCb 2 (fst (connectCb 2 (fresh\<lparr>sub := True\<rparr>)))
     = (fst (connectCb 2 (fresh\<lparr>sub := True\<rparr>)), []) \<and>
   opened [SubscribeCamera 5, Unsubscribe, SubscribeCamera 5 :: (nat, nat) effect] = 1"
proof -
  have h: "run passthrough (onInit None None blank)
             [Connect 1, Connect 2, Connect 0, Connect 0, Connect 3]
     = Inr (fresh\<lparr>sub := True\<rparr>, [SubscribeCamera 5, Unsubscribe, SubscribeCamera 5])"
    by (simp add: eval_defs)
  from connectCb_gate [OF h, of 2 "fresh\<lparr>sub := True\<rparr>"] h show ?thesis
    by (simp add: eval_defs)
qed

text \<open>
  C6. \<^verbatim>\<open>imageCb\<close> always stores the arriving image and camera info over the cached ones
  and changes nothing else. With no request received yet it does nothing more. When the
  current request's mode is \<open>ALL\<close> it makes exactly one publish attempt, which hands the
  frame that has just arrived and the current crop configuration to the transform. In
  every other mode it makes no publish attempt.
\<close>

theorem imageCb_frame:
  "fst (imageCb P i c s) = s\<lparr>last_image_msg := Some i, last_info_msg := Some c\<rparr> \<and>
   snd (imageCb P i c s) =
     (case last_request s of
        None \<Rightarrow> []
      | Some r \<Rightarrow>
          if mode r = ALL_mode
          then PublishAttempt # ProcessImage (crop_decimate_config s) i c #
                 (case P (crop_decimate_config s) i c of
                    None \<Rightarrow> []
                  | Some (image_out, camera_info_out) \<Rightarrow> [Publish image_out camera_info_out])
          else []) \<and>
   attempts (snd (imageCb P i c s)) =
     (case last_request s of None \<Rightarrow> 0 | Some r \<Rightarrow> if mode r = ALL_mode then 1 else 0)"
  by (simp add: imageCb_def publishCroppedImage_def attempts_def split: option.splits)

theorem imageCb_frame_witness:
  "imageCb passthrough 3 4 (fst (imageRequestCb passthrough (request ALL_mode 0) periodic5))
     = ((fst (imageRequestCb passthrough (request ALL_mode 0) periodic5))
          \<lparr>last_image_msg := Some 3, last_info_msg := Some 4\<rparr>,
        [PublishAttempt, ProcessImage (crop_decimate_config periodic5) 3 4, Publish 3 4]) \<and>
   imageCb passthrough 3 4 periodic5
     = (periodic5\<lparr>last_image_msg := Some 3, last_info_msg := Some 4\<rparr>, []) \<and>
   imageCb passthrough 3 4 fresh
     = (fresh\<lparr>last_image_msg := Some 3, last_info_msg := Some 4\<rparr>, [])"
  using imageCb_frame [of passthrough 3 4
      "fst (imageRequestCb passthrough (request ALL_mode 0) periodic5)"]
    imageCb_frame [of passthrough 3 4 periodic5]
    imageCb_frame [of passthrough 3 4 fresh]
  by (simp add: prod_eq_iff periodic5_eval)
    (simp add: eval_defs)

text \<open>
  C7. \<^verbatim>\<open>publishCroppedImage\<close> never changes the nodelet's state and has no failure of
  its own. When the cached image or the cached camera info is absent it calls neither the
  transform nor the publisher. When both are present it calls the transform exactly once,
  on the current crop configuration and the cached pair, and publishes the transform's
  output exactly when the transform reports success. Hence along every run from
  \<^verbatim>\<open>onInit\<close> in which no frame arrives, whatever requests, ticks and subscriber changes
  occur, nothing is published and the transform is never called.
\<close>

theorem publishCroppedImage_ready:
  assumes "image_free es"
  shows "fst (publishCroppedImage P s) = s \<and>
         (last_image_msg s = None \<or> last_info_msg s = None \<longrightarrow>
            snd (publishCroppedImage P s) = [PublishAttempt]) \<and>
         (\<forall>img info. last_image_msg s = Some img \<and> last_info_msg s = Some info \<longrightarrow>
            snd (publishCroppedImage P s) =
              PublishAttempt # ProcessImage (crop_decimate_config s) img info #
                (case P (crop_decimate_config s) img info of
                   None \<Rightarrow> []
                 | Some (image_out, camera_info_out) \<Rightarrow> [Publish image_out camera_info_out]) \<and>
            transform_calls (snd (publishCroppedImage P s)) = 1 \<and>
            publishes (snd (publishCroppedImage P s)) =
              (if P (crop_decimate_config s) img info = None then 0 else 1)) \<and>
         (\<exists>s2 out. run P (onInit q f cfg0) es = Inr (s2, out) \<and>
            last_image_msg s2 = None \<and> publishes out = 0 \<and> transform_calls out = 0)"
proof -
  have a: "fst (publishCroppedImage P s) = s" by simp
  have b: "last_image_msg s = None \<or> last_info_msg s = None \<longrightarrow>
            snd (publishCroppedImage P s) = [PublishAttempt]"
    by (auto simp: publishCroppedImage_def split: option.splits)
  have c: "\<forall>img info. last_image_msg s = Some img \<and> last_info_msg s = Some info \<longrightarrow>
            snd (publishCroppedImage P s) =
              PublishAttempt # ProcessImage (crop_decimate_config s) img info #
                (case P (crop_decimate_config s) img info of
                   None \<Rightarrow> []
                 | Some (image_out, camera_info_out) \<Rightarrow> [Publish image_out camera_info_out]) \<and>
            transform_calls (snd (publishCroppedImage P s)) = 1 \<and>
            publishes (snd (publishCroppedImage P s)) =
              (if P (crop_decimate_config s) img info = None then 0 else 1)"
    by (auto simp: publishCroppedImage_def transform_calls_def publishes_def split: option.splits)
  from run_total [of "onInit q f cfg0" P es, OF node_inv_onInit]
  obtain s2 out where r: "run P (onInit q f cfg0) es = Inr (s2, out)" by blast
  have "last_image_msg (onInit q f cfg0 :: ('a, 'b) nodelet) = None" by (simp add: onInit_def)
  from frameless_run [OF r this assms] r
  have d: "\<exists>s2 out. run P (onInit q f cfg0) es = Inr (s2, out) \<and>
            last_image_msg s2 = None \<and> publishes out = 0 \<and> transform_calls out = 0"
    by blast
  from a b c d show ?thesis by blast
qed

theorem publishCroppedImage_ready_witness:
  "image_free [ImageRequest (request PUBLISH_FREQ 5), Timer 0, ImageRequest (request ALL_mode 0),
       Connect 1 :: (nat, nat) event] \<and>
   run passthrough fresh [ImageRequest (request PUBLISH_FREQ 5), Timer 0,
       ImageRequest (request ALL_mode 0), Connect 1]
     = Inr (fresh\<lparr>sub := True,
                  crop_decimate_config := crop_decimate_config periodic5,
                  crop_decimate_configured := True,
                  last_request := Some (request ALL_mode 0),
                  image_publish_timer := Some 0, timers := [(0, 1 / 5)], next_timer := 1\<rparr>,
            [PublishAttempt, PublishAttempt, PublishAttempt, SubscribeCamera 5]) \<and>
   publishCroppedImage passthrough periodic5
     = (periodic5, [PublishAttempt, ProcessImage (crop_decimate_config periodic5) 1 2, Publish 1 2]) \<and>
   publishCroppedImage failing periodic5
     = (periodic5, [PublishAttempt, ProcessImage (crop_decimate_config periodic5) 1 2]) \<and>
   publishCroppedImage passthrough fresh = (fresh, [PublishAttempt])"
proof -
  have h: "image_free [ImageRequest (request PUBLISH_FREQ 5), Timer 0,
       ImageRequest (request ALL_mode 0), Connect 1 :: (nat, nat) event]"
    by simp
  have r: "run passthrough fresh [ImageRequest (request PUBLISH_FREQ 5), Timer 0,
       ImageRequest (request ALL_mode 0), Connect 1]
     = Inr (fresh\<lparr>sub := True,
                  crop_decimate_config := crop_decimate_config periodic5,
                  crop_decimate_configured := True,
                  last_request := Some (request ALL_mode 0),
                  image_publish_timer := Some 0, timers := [(0, 1 / 5)], next_timer := 1\<rparr>,
            [PublishAttempt, PublishAttempt, PublishAttempt, SubscribeCamera 5])"
    by (simp add: periodic5_eval) (simp add: eval_defs)
  have i: "last_image_msg periodic5 = Some 1" "last_info_msg periodic5 = Some 2"
    "last_image_msg fresh = None"
    by (simp_all add: periodic5_eval) (simp add: fresh_def onInit_def)
  from publishCroppedImage_ready [OF h, of passthrough periodic5]
    publishCroppedImage_ready [OF h, of failing periodic5]
    publishCroppedImage_ready [OF h, of passthrough fresh] h r i
  show ?thesis
    by (simp add: prod_eq_iff passthrough_def failing_def)
qed

text \<open>
  C10. \<^verbatim>\<open>publishTimerCb\<close> fails exactly when \<^verbatim>\<open>last_request_\<close> is null, and no
  callback makes a stored request null again. Every run from \<^verbatim>\<open>onInit\<close> completes
  without that failure, and in the state it reaches a valid timer handle, and so any
  registered timer whose tick can call the handler, comes with a stored request: the
  handler's read of the request's mode finds a request.
\<close>

theorem timer_tick_has_request:
  "(publishTimerCb P s0 = Inl NullRequest) = (last_request s0 = None) \<and>
   (\<forall>e s1 out1. last_request s0 \<noteq> None \<and> dispatch P e s0 = Inr (s1, out1)
       \<longrightarrow> last_request s1 \<noteq> None) \<and>
   (\<exists>s out. run P (onInit q f cfg0) es = Inr (s, out) \<and>
      (image_publish_timer s \<noteq> None \<longrightarrow> last_request s \<noteq> None) \<and>
      (t \<in> fst ` set (timers s) \<longrightarrow>
         last_request s \<noteq> None \<and> dispatch P (Timer t) s \<noteq> Inl NullRequest))"
proof -
  have a: "(publishTimerCb P s0 = Inl NullRequest) = (last_request s0 = None)"
    by (simp add: publishTimerCb_def split: option.splits)
  have b: "\<forall>e s1 out1. last_request s0 \<noteq> None \<and> dispatch P e s0 = Inr (s1, out1)
       \<longrightarrow> last_request s1 \<noteq> None"
    using dispatch_keeps by blast
  from run_total [of "onInit q f cfg0" P es, OF node_inv_onInit]
  obtain s out where r: "run P (onInit q f cfg0) es = Inr (s, out)" and i: "node_inv s"
    by blast
  have c: "image_publish_timer s \<noteq> None \<longrightarrow> last_request s \<noteq> None"
    using i by (auto simp: node_inv_def split: option.splits)
  have d: "t \<in> fst ` set (timers s) \<longrightarrow>
         last_request s \<noteq> None \<and> dispatch P (Timer t) s \<noteq> Inl NullRequest"
  proof
    assume t: "t \<in> fst ` set (timers s)"
    then have "timers s \<noteq> []" by auto
    with i have "last_request s \<noteq> None"
      by (auto simp: node_inv_def timer_inv_def split: option.splits)
    with t show "last_request s \<noteq> None \<and> dispatch P (Timer t) s \<noteq> Inl NullRequest"
      by (auto simp: publishTimerCb_def split: if_splits)
  qed
  from a b r c d show ?thesis by blast
qed

theorem timer_tick_has_request_witness:
  "run passthrough fresh [Image 1 2, ImageRequest (request PUBLISH_FREQ 5)]
     = Inr (periodic5,
            [PublishAttempt, ProcessImage (crop_decimate_config periodic5) 1 2, Publish 1 2]) \<and>
   image_publish_timer periodic5 = Some 0 \<and>
   0 \<in> fst ` set (timers periodic5) \<and>
   last_request periodic5 = Some (request PUBLISH_FREQ 5) \<and>
   dispatch passthrough (Timer 0) periodic5
     = Inr (periodic5,
            [PublishAttempt, ProcessImage (crop_decimate_config periodic5) 1 2, Publish 1 2]) \<and>
   publishTimerCb passthrough fresh = Inl NullRequest"
proof -
  have r: "run passthrough (onInit None None blank) [Image 1 2, ImageRequest (request PUBLISH_FREQ 5)]
     = Inr (periodic5,
            [PublishAttempt, ProcessImage (crop_decimate_config periodic5) 1 2, Publish 1 2])"
    by (simp add: periodic5_eval) (simp add: eval_defs)
  have r': "run passthrough fresh [Image 1 2, ImageRequest (request PUBLISH_FREQ 5)]
     = Inr (periodic5,
            [PublishAttempt, ProcessImage (crop_decimate_config periodic5) 1 2, Publish 1 2])"
    using r by (simp only: fresh_def)
  have e: "image_publish_timer periodic5 = Some 0"
    "0 \<in> fst ` set (timers periodic5)"
    "last_request periodic5 = Some (request PUBLISH_FREQ 5)"
    by (simp_all add: periodic5_eval)
  have d: "dispatch passthrough (Timer 0) periodic5
     = Inr (periodic5,
            [PublishAttempt, ProcessImage (crop_decimate_config periodic5) 1 2, Publish 1 2])"
    by (simp add: periodic5_eval publishTimerCb_def publishCroppedImage_def passthrough_def
        request_def)
  have n: "last_request fresh = None" by (simp add: fresh_def onInit_def)
  from timer_tick_has_request
    [of passthrough fresh None None blank "[Image 1 2, ImageRequest (request PUBLISH_FREQ 5)]" 0] n
  have "publishTimerCb passthrough fresh = Inl NullRequest" by blast
  with r' e d show ?thesis by blast
qed

text \<open>
  C9. A request whose mode is none of \<open>ONCE\<close>, \<open>PUBLISH_FREQ\<close> and \<open>ALL\<close> is handled
  like any other: it becomes the current request, the crop configuration is taken from
  its fields, exactly one publish attempt is made at once, and the timers and the timer
  handle are left as they were (no timer is created).
\<close>

theorem unrecognized_mode:
  assumes "mode rq \<notin> {ONCE, PUBLISH_FREQ, ALL_mode}"
  shows "imageRequestCb P rq s =
           publishCroppedImage P
             (s\<lparr>last_request := Some rq,
                crop_decimate_config := config_of rq (crop_decimate_config s),
                crop_decimate_configured := True\<rparr>) \<and>
         attempts (snd (imageRequestCb P rq s)) = 1 \<and>
         last_request (fst (imageRequestCb P rq s)) = Some rq \<and>
         crop_decimate_config (fst (imageRequestCb P rq s)) =
           \<lparr>decimation_x = binning_x rq, decimation_y = binning_y rq,
            width = roi_width rq, height = roi_height rq,
            x_offset = roi_x_offset rq, y_offset = roi_y_offset rq\<rparr> \<and>
         timers (fst (imageRequestCb P rq s)) = timers s \<and>
         image_publish_timer (fst (imageRequestCb P rq s)) = image_publish_timer s \<and>
         next_timer (fst (imageRequestCb P rq s)) = next_timer s"
proof -
  from assms have m: "mode rq \<noteq> ONCE" "mode rq \<noteq> PUBLISH_FREQ" by simp_all
  then have e: "imageRequestCb P rq s =
           publishCroppedImage P
             (s\<lparr>last_request := Some rq,
                crop_decimate_config := config_of rq (crop_decimate_config s),
                crop_decimate_configured := True\<rparr>)"
    by (simp add: imageRequestCb_def)
  have c: "config_of rq (crop_decimate_config s) =
           \<lparr>decimation_x = binning_x rq, decimation_y = binning_y rq,
            width = roi_width rq, height = roi_height rq,
            x_offset = roi_x_offset rq, y_offset = roi_y_offset rq\<rparr>"
    by (simp add: config_of_def)
  from e c show ?thesis by simp
qed

theorem unrecognized_mode_witness:
  "mode (request (OtherMode 7) 3) \<notin> {ONCE, PUBLISH_FREQ, ALL_mode} \<and>
   imageRequestCb passthrough (request (OtherMode 7) 3) periodic5
     = (periodic5\<lparr>last_request := Some (request (OtherMode 7) 3)\<rparr>,
        [PublishAttempt, ProcessImage (crop_decimate_config periodic5) 1 2, Publish 1 2]) \<and>
   timers (fst (imageRequestCb passthrough (request (OtherMode 7) 3) periodic5)) = [(0, 1 / 5)]"
proof -
  have h: "mode (request (OtherMode 7) 3) \<notin> {ONCE, PUBLISH_FREQ, ALL_mode}"
    by (simp add: request_def)
  from unrecognized_mode [OF h, of passthrough periodic5] h show ?thesis
    by (simp add: periodic5_eval) (simp add: eval_defs)
qed

text \<open>
  C5. In every state reached from \<^verbatim>\<open>onInit\<close> the cap is the configured parameter
  (100 when it is not set). A request with mode \<open>PUBLISH_FREQ\<close> makes exactly one publish
  attempt at once; the capped frequency is the minimum of the cap and the requested
  frequency; when it is positive, the handler leaves exactly one timer registered, the new
  one, with period one over the capped frequency, and the member handle refers to it. With
  cap 5 and requested frequency 10 the period is 1/5.
\<close>

theorem periodic_request:
  assumes "run P (onInit q f cfg0) es = Inr (s, out)" and "mode rq = PUBLISH_FREQ"
  shows "max_video_framerate s = (case f of None \<Rightarrow> 100 | Some cap \<Rightarrow> cap) \<and>
         std_min (max_video_framerate s) (publish_frequency rq)
           = min (max_video_framerate s) (publish_frequency rq) \<and>
         attempts (snd (imageRequestCb P rq s)) = 1 \<and>
         (0 < min (max_video_framerate s) (publish_frequency rq) \<longrightarrow>
            timers (fst (imageRequestCb P rq s))
              = [(next_timer s, 1 / min (max_video_framerate s) (publish_frequency rq))] \<and>
            image_publish_timer (fst (imageRequestCb P rq s)) = Some (next_timer s))"
proof -
  have a: "max_video_framerate s = (case f of None \<Rightarrow> 100 | Some cap \<Rightarrow> cap)"
    using run_max_video_framerate [OF assms(1)] by (simp add: onInit_def)
  have ti: "timer_inv s"
    using run_node_inv [OF assms(1)] by (simp add: node_inv_def)
  have d: "0 < min (max_video_framerate s) (publish_frequency rq) \<longrightarrow>
            timers (fst (imageRequestCb P rq s))
              = [(next_timer s, 1 / min (max_video_framerate s) (publish_frequency rq))] \<and>
            image_publish_timer (fst (imageRequestCb P rq s)) = Some (next_timer s)"
  proof
    assume "0 < min (max_video_framerate s) (publish_frequency rq)"
    with assms(2) have "arming (max_video_framerate s) rq"
      by (simp add: arming_def std_min_min)
    from imageRequestCb_arming [OF ti this, of P]
    show "timers (fst (imageRequestCb P rq s))
              = [(next_timer s, 1 / min (max_video_framerate s) (publish_frequency rq))] \<and>
            image_publish_timer (fst (imageRequestCb P rq s)) = Some (next_timer s)"
      by (simp add: std_min_min)
  qed
  from a d std_min_min imageRequestCb_attempts [of P rq s] show ?thesis by simp
qed

theorem periodic_request_witness:
  "run passthrough (onInit None (Some 5) blank) [Image 1 2]
     = Inr ((onInit None (Some 5) blank)\<lparr>last_image_msg := Some 1, last_info_msg := Some 2\<rparr>, []) \<and>
   mode (request PUBLISH_FREQ 10) = PUBLISH_FREQ \<and>
   std_min 5 10 = 5 \<and>
   attempts (snd (imageRequestCb passthrough (request PUBLISH_FREQ 10)
     ((onInit None (Some 5) blank)\<lparr>last_image_msg := Some 1, last_info_msg := Some 2\<rparr>))) = 1 \<and>
   timers (fst (imageRequestCb passthrough (request PUBLISH_FREQ 10)
     ((onInit None (Some 5) blank)\<lparr>last_image_msg := Some 1, last_info_msg := Some 2\<rparr>)))
     = [(0, 1 / 5)] \<and>
   image_publish_timer (fst (imageRequestCb passthrough (request PUBLISH_FREQ 10)
     ((onInit None (Some 5) blank)\<lparr>last_image_msg := Some 1, last_info_msg := Some 2\<rparr>)))
     = Some 0"
proof -
  have r: "run passthrough (onInit None (Some 5) blank) [Image 1 2]
     = Inr ((onInit None (Some 5) blank)\<lparr>last_image_msg := Some 1, last_info_msg := Some 2\<rparr>, [])"
    by (simp add: eval_defs)
  have m: "mode (request PUBLISH_FREQ 10) = PUBLISH_FREQ" by (simp add: request_def)
  from periodic_request [OF r m] r m show ?thesis
    by (simp add: onInit_def request_def)
qed

text \<open>
  C1, as the code has it. In every state reached from \<^verbatim>\<open>onInit\<close>: a request with mode
  \<open>PUBLISH_FREQ\<close> and a positive capped frequency replaces the timer, so that after the
  handler the only registered timer is the new one and none registered before remains. A
  request whose mode is not \<open>PUBLISH_FREQ\<close> leaves the timers and the handle as they
  were; a tick of a timer left running is then a no-op, because \<^verbatim>\<open>publishTimerCb\<close>
  returns at once when the mode is not \<open>PUBLISH_FREQ\<close>. Nothing is stated here for a
  request with mode \<open>PUBLISH_FREQ\<close> whose capped frequency is not positive.
\<close>

theorem request_timer_handling:
  assumes "run P (onInit q f cfg0) es = Inr (s, out)"
  shows "(mode rq = PUBLISH_FREQ \<and> 0 < std_min (max_video_framerate s) (publish_frequency rq) \<longrightarrow>
            timers (fst (imageRequestCb P rq s))
              = [(next_timer s, 1 / std_min (max_video_framerate s) (publish_frequency rq))] \<and>
            image_publish_timer (fst (imageRequestCb P rq s)) = Some (next_timer s) \<and>
            next_timer s \<notin> fst ` set (timers s)) \<and>
         (mode rq \<noteq> PUBLISH_FREQ \<longrightarrow>
            timers (fst (imageRequestCb P rq s)) = timers s \<and>
            image_publish_timer (fst (imageRequestCb P rq s)) = image_publish_timer s \<and>
            publishTimerCb P (fst (imageRequestCb P rq s))
              = Inr (fst (imageRequestCb P rq s), []))"
proof -
  have ti: "timer_inv s"
    using run_node_inv [OF assms] by (simp add: node_inv_def)
  have fresh_id: "next_timer s \<notin> fst ` set (timers s)"
  proof (cases "image_publish_timer s")
    case None
    with ti show ?thesis by (simp add: timer_inv_def)
  next
    case (Some t)
    with ti have "map fst (timers s) = [t]" and "t < next_timer s"
      by (simp_all add: timer_inv_def)
    then have "fst ` set (timers s) = {t}"
      by (metis list.set_map list.simps(15) set_empty2)
    with \<open>t < next_timer s\<close> show ?thesis by simp
  qed
  have a: "mode rq = PUBLISH_FREQ \<and> 0 < std_min (max_video_framerate s) (publish_frequency rq) \<longrightarrow>
            timers (fst (imageRequestCb P rq s))
              = [(next_timer s, 1 / std_min (max_video_framerate s) (publish_frequency rq))] \<and>
            image_publish_timer (fst (imageRequestCb P rq s)) = Some (next_timer s) \<and>
            next_timer s \<notin> fst ` set (timers s)"
  proof
    assume "mode rq = PUBLISH_FREQ \<and> 0 < std_min (max_video_framerate s) (publish_frequency rq)"
    then have "arming (max_video_framerate s) rq" by (simp add: arming_def)
    from imageRequestCb_arming [OF ti this, of P] fresh_id
    show "timers (fst (imageRequestCb P rq s))
              = [(next_timer s, 1 / std_min (max_video_framerate s) (publish_frequency rq))] \<and>
            image_publish_timer (fst (imageRequestCb P rq s)) = Some (next_timer s) \<and>
            next_timer s \<notin> fst ` set (timers s)"
      by simp
  qed
  have b: "mode rq \<noteq> PUBLISH_FREQ \<longrightarrow>
            timers (fst (imageRequestCb P rq s)) = timers s \<and>
            image_publish_timer (fst (imageRequestCb P rq s)) = image_publish_timer s \<and>
            publishTimerCb P (fst (imageRequestCb P rq s))
              = Inr (fst (imageRequestCb P rq s), [])"
  proof
    assume m: "mode rq \<noteq> PUBLISH_FREQ"
    then have "\<not> arming (max_video_framerate s) rq" by (simp add: arming_def)
    from imageRequestCb_not_arming [OF this, of P] m
    show "timers (fst (imageRequestCb P rq s)) = timers s \<and>
            image_publish_timer (fst (imageRequestCb P rq s)) = image_publish_timer s \<and>
            publishTimerCb P (fst (imageRequestCb P rq s))
              = Inr (fst (imageRequestCb P rq s), [])"
      by (simp add: publishTimerCb_def)
  qed
  from a b show ?thesis by blast
qed

theorem request_timer_handling_witness:
  "run passthrough (onInit None None blank) [Image 1 2, ImageRequest (request PUBLISH_FREQ 5)]
     = Inr (periodic5,
            [PublishAttempt, ProcessImage (crop_decimate_config periodic5) 1 2, Publish 1 2]) \<and>
   timers periodic5 = [(0, 1 / 5)] \<and>
   timers (fst (imageRequestCb passthrough (request PUBLISH_FREQ 10) periodic5)) = [(1, 1 / 10)] \<and>
   image_publish_timer (fst (imageRequestCb passthrough (request PUBLISH_FREQ 10) periodic5)) = Some 1 \<and>
   timers (fst (imageRequestCb passthrough (request ALL_mode 0) periodic5)) = [(0, 1 / 5)] \<and>
   publishTimerCb passthrough (fst (imageRequestCb passthrough (request ALL_mode 0) periodic5))
     = Inr (fst (imageRequestCb passthrough (request ALL_mode 0) periodic5), [])"
proof -
  have r: "run passthrough (onInit None None blank) [Image 1 2, ImageRequest (request PUBLISH_FREQ 5)]
     = Inr (periodic5,
            [PublishAttempt, ProcessImage (crop_decimate_config periodic5) 1 2, Publish 1 2])"
    by (simp add: periodic5_eval) (simp add: eval_defs)
  have e: "mode (request PUBLISH_FREQ 10) = PUBLISH_FREQ"
    "mode (request ALL_mode 0) \<noteq> PUBLISH_FREQ"
    "std_min (max_video_framerate periodic5) (publish_frequency (request PUBLISH_FREQ 10)) = 10"
    "next_timer periodic5 = 1" "timers periodic5 = [(0, 1 / 5)]"
    by (simp_all add: periodic5_eval request_def std_min_def)
  from request_timer_handling [OF r, of "request PUBLISH_FREQ 10"]
    request_timer_handling [OF r, of "request ALL_mode 0"] r e
  show ?thesis by simp
qed

text \<open>
  C1 as stated fails: the timer of a 5 Hz periodic request is still registered after a
  \<open>ONCE\<close> request has been handled.
\<close>

theorem timer_survives_once_request:
  "run passthrough fresh [Image 1 2, ImageRequest (request PUBLISH_FREQ 5)]
     = Inr (periodic5,
            [PublishAttempt, ProcessImage (crop_decimate_config periodic5) 1 2, Publish 1 2]) \<and>
   timers periodic5 = [(0, 1 / 5)] \<and>
   timers (fst (imageRequestCb passthrough (request ONCE 0) periodic5)) = [(0, 1 / 5)]"
  by (simp add: periodic5_eval) (simp add: eval_defs)

text \<open>
  C2, as the code has it. In every state reached from \<^verbatim>\<open>onInit\<close> at most one timer
  is registered, the one the member handle refers to. When the current request has mode
  \<open>PUBLISH_FREQ\<close> and a positive capped frequency, a timer is registered and its period is
  one over that frequency. A timer is registered only if some request received so far had
  mode \<open>PUBLISH_FREQ\<close> and a positive capped frequency.
\<close>

theorem reachable_timers:
  assumes "run P (onInit q f cfg0) es = Inr (s, out)"
  shows "length (timers s) \<le> 1 \<and>
         map fst (timers s) = (case image_publish_timer s of None \<Rightarrow> [] | Some t \<Rightarrow> [t]) \<and>
         (\<forall>r. last_request s = Some r \<and> mode r = PUBLISH_FREQ \<and>
              0 < std_min (max_video_framerate s) (publish_frequency r) \<longrightarrow>
              map snd (timers s) = [1 / std_min (max_video_framerate s) (publish_frequency r)]) \<and>
         (timers s \<noteq> [] \<longrightarrow>
            (\<exists>rq. ImageRequest rq \<in> set es \<and> mode rq = PUBLISH_FREQ \<and>
               0 < std_min (max_video_framerate s) (publish_frequency rq)))"
proof -
  from run_node_inv [OF assms] have i: "node_inv s" .
  have a: "map fst (timers s) = (case image_publish_timer s of None \<Rightarrow> [] | Some t \<Rightarrow> [t])"
    using i by (simp add: node_inv_def timer_inv_def split: option.splits)
  have "length (map fst (timers s)) \<le> 1"
    by (simp only: a) (simp split: option.splits)
  then have b: "length (timers s) \<le> 1" by simp
  have c: "\<forall>r. last_request s = Some r \<and> mode r = PUBLISH_FREQ \<and>
              0 < std_min (max_video_framerate s) (publish_frequency r) \<longrightarrow>
              map snd (timers s) = [1 / std_min (max_video_framerate s) (publish_frequency r)]"
    using i by (auto simp: node_inv_def arming_def)
  have m: "max_video_framerate s = max_video_framerate (onInit q f cfg0 :: ('a, 'b) nodelet)"
    by (rule run_max_video_framerate [OF assms])
  have d: "timers s \<noteq> [] \<longrightarrow>
            (\<exists>rq. ImageRequest rq \<in> set es \<and> mode rq = PUBLISH_FREQ \<and>
               0 < std_min (max_video_framerate s) (publish_frequency rq))"
  proof
    assume "timers s \<noteq> []"
    from run_timers_origin [OF assms this] m
    show "\<exists>rq. ImageRequest rq \<in> set es \<and> mode rq = PUBLISH_FREQ \<and>
               0 < std_min (max_video_framerate s) (publish_frequency rq)"
      by (auto simp: arming_def onInit_def)
  qed
  from a b c d show ?thesis by blast
qed

theorem reachable_timers_witness:
  "run passthrough (onInit None None blank)
       [Image 1 2, ImageRequest (request PUBLISH_FREQ 5), ImageRequest (request PUBLISH_FREQ 10)]
     = Inr (periodic5\<lparr>last_request := Some (request PUBLISH_FREQ 10),
                     image_publish_timer := Some 1, timers := [(1, 1 / 10)], next_timer := 2\<rparr>,
            [PublishAttempt, ProcessImage (crop_decimate_config periodic5) 1 2, Publish 1 2,
             PublishAttempt, ProcessImage (crop_decimate_config periodic5) 1 2, Publish 1 2]) \<and>
   ImageRequest (request PUBLISH_FREQ 10)
     \<in> set [Image 1 2, ImageRequest (request PUBLISH_FREQ 5),
            ImageRequest (request PUBLISH_FREQ 10) :: (nat, nat) event] \<and>
   mode (request PUBLISH_FREQ 10) = PUBLISH_FREQ \<and>
   0 < std_min 100 (publish_frequency (request PUBLISH_FREQ 10)) \<and>
   map snd [(1 :: nat, 1 / 10 :: real)] = [1 / std_min 100 (publish_frequency (request PUBLISH_FREQ 10))]"
proof -
  have r: "run passthrough (onInit None None blank)
       [Image 1 2, ImageRequest (request PUBLISH_FREQ 5), ImageRequest (request PUBLISH_FREQ 10)]
     = Inr (periodic5\<lparr>last_request := Some (request PUBLISH_FREQ 10),
                     image_publish_timer := Some 1, timers := [(1, 1 / 10)], next_timer := 2\<rparr>,
            [PublishAttempt, ProcessImage (crop_decimate_config periodic5) 1 2, Publish 1 2,
             PublishAttempt, ProcessImage (crop_decimate_config periodic5) 1 2, Publish 1 2])"
    by (simp add: periodic5_eval) (simp add: eval_defs)
  have e: "mode (request PUBLISH_FREQ 10) = PUBLISH_FREQ"
    "0 < std_min 100 (publish_frequency (request PUBLISH_FREQ 10))"
    by (simp_all add: request_def std_min_def)
  from reachable_timers [OF r] r e show ?thesis
    by (simp add: periodic5_eval)
qed

text \<open>
  C2 as stated fails in the direction from the timer to the mode: after a 5 Hz periodic
  request and then a \<open>ONCE\<close> request, a timer is registered while the current mode is
  \<open>ONCE\<close>.
\<close>

theorem timer_active_in_once_mode:
  "run passthrough fresh
       [Image 1 2, ImageRequest (request PUBLISH_FREQ 5), ImageRequest (request ONCE 0)]
     = Inr (periodic5\<lparr>last_request := Some (request ONCE 0)\<rparr>,
            [PublishAttempt, ProcessImage (crop_decimate_config periodic5) 1 2, Publish 1 2,
             PublishAttempt, ProcessImage (crop_decimate_config periodic5) 1 2, Publish 1 2]) \<and>
   timers (periodic5\<lparr>last_request := Some (request ONCE 0)\<rparr>) = [(0, 1 / 5)] \<and>
   mode (request ONCE 0) = ONCE"
  by (simp add: periodic5_eval) (simp add: eval_defs)

text \<open>
  C3. The code at a periodic request with frequency 0 that arrives while the timer of a
  5 Hz periodic request is running: the capped frequency is 0, no timer is created and the
  old one is not touched; it stays registered, the mode is still \<open>PUBLISH_FREQ\<close>, and each
  of its ticks publishes again. After the one immediate publish, two ticks give two more.
\<close>

theorem periodic_zero_keeps_old_timer:
  "run passthrough fresh [Image 1 2, ImageRequest (request PUBLISH_FREQ 5)]
     = Inr (periodic5,
            [PublishAttempt, ProcessImage (crop_decimate_config periodic5) 1 2, Publish 1 2]) \<and>
   run passthrough periodic5 [ImageRequest (request PUBLISH_FREQ 0), Timer 0, Timer 0]
     = Inr (periodic5\<lparr>last_request := Some (request PUBLISH_FREQ 0)\<rparr>,
            [PublishAttempt, ProcessImage (crop_decimate_config periodic5) 1 2, Publish 1 2,
             PublishAttempt, ProcessImage (crop_decimate_config periodic5) 1 2, Publish 1 2,
             PublishAttempt, ProcessImage (crop_decimate_config periodic5) 1 2, Publish 1 2]) \<and>
   timers (periodic5\<lparr>last_request := Some (request PUBLISH_FREQ 0)\<rparr>) = [(0, 1 / 5)] \<and>
   std_min (max_video_framerate periodic5) (publish_frequency (request PUBLISH_FREQ 0)) = 0"
  by (simp add: periodic5_eval) (simp add: eval_defs)

end
